theory Spec2Isabelle
  imports Main
begin

section \<open>Python strings\<close>

text \<open>
  A Python \<open>str\<close> is a sequence of Unicode code points, so a string is a list of
  code points here, each code point being the number that Python's \<open>ord\<close> returns.
  String literals of the source are written with \<open>lit\<close>.
\<close>

type_synonym codepoint = nat
type_synonym str = "codepoint list"

definition cp :: "char \<Rightarrow> codepoint" where
  "cp c = of_char c"

definition lit :: "string \<Rightarrow> str" where
  "lit s = map cp s"

text \<open>
  The methods \<open>str.isalnum\<close>, \<open>str.isdigit\<close>, \<open>str.lower\<close> and the regular
  expression class \<open>\d\<close> read the interpreter's Unicode character database. The
  database belongs to the Python runtime, not to the repository, so it is a parameter of
  the model: one row of properties per code point.
  \<^item> \<open>isalnum\<close>, \<open>isdigit\<close>, \<open>isdecimal\<close>: the one-character tests; \<open>\d\<close> matches
    exactly the code points with \<open>isdecimal\<close>;
  \<^item> \<open>tolower_full\<close>: the full lower-case mapping of a code point (one to three code
    points);
  \<^item> \<open>cased\<close>, \<open>case_ignorable\<close>: the two properties that \<open>str.lower\<close> consults for a
    capital sigma.
\<close>

record unicode_db =
  isalnum :: "codepoint \<Rightarrow> bool"
  isdigit :: "codepoint \<Rightarrow> bool"
  isdecimal :: "codepoint \<Rightarrow> bool"
  tolower_full :: "codepoint \<Rightarrow> str"
  cased :: "codepoint \<Rightarrow> bool"
  case_ignorable :: "codepoint \<Rightarrow> bool"

text \<open>\<open>s.replace(a, b)\<close> for one-character strings \<open>a\<close> and \<open>b\<close>.\<close>

definition replace_char :: "codepoint \<Rightarrow> codepoint \<Rightarrow> str \<Rightarrow> str" where
  "replace_char a b s = map (\<lambda>c. if c = a then b else c) s"

text \<open>
  \<open>str.lower\<close> maps every code point through its full lower-case mapping, except the
  capital sigma U+03A3, which becomes the final sigma U+03C2 when it ends a word and the
  small sigma U+03C3 otherwise. \<open>before\<close> is the text to the left of the sigma, nearest
  code point first, \<open>after\<close> the text to its right.
\<close>

definition handle_capital_sigma :: "unicode_db \<Rightarrow> str \<Rightarrow> str \<Rightarrow> codepoint" where
  "handle_capital_sigma U before after =
     (let p = dropWhile (case_ignorable U) before;
          n = dropWhile (case_ignorable U) after
      in if p \<noteq> [] \<and> cased U (hd p) \<and> (n = [] \<or> \<not> cased U (hd n))
         then 0x3C2 else 0x3C3)"

fun lower_from :: "unicode_db \<Rightarrow> str \<Rightarrow> str \<Rightarrow> str" where
  "lower_from U before [] = []"
| "lower_from U before (c # after) =
     (if c = 0x3A3 then [handle_capital_sigma U before after] else tolower_full U c)
     @ lower_from U (c # before) after"

definition str_lower :: "unicode_db \<Rightarrow> str \<Rightarrow> str" where
  "str_lower U s = lower_from U [] s"

section \<open>Name Sanitizer\<close>

definition sanitize_table_name :: "unicode_db \<Rightarrow> str \<Rightarrow> str" where
  "sanitize_table_name U name =
     (let sanitized = replace_char (cp CHR ''.'') (cp CHR ''_'')
                        (replace_char (cp CHR ''-'') (cp CHR ''_'')
                          (replace_char (cp CHR '' '') (cp CHR ''_'') name));
          sanitized = filter (\<lambda>c. isalnum U c \<or> c = cp CHR ''_'') sanitized;
          sanitized = (if sanitized \<noteq> [] \<and> isdigit U (hd sanitized)
                       then lit ''sheet_'' @ sanitized else sanitized)
      in str_lower U sanitized)"

section \<open>The ASCII rows of the character database\<close>

definition ascii_digit :: "codepoint \<Rightarrow> bool" where
  "ascii_digit c \<longleftrightarrow> 48 \<le> c \<and> c \<le> 57"

definition ascii_upper :: "codepoint \<Rightarrow> bool" where
  "ascii_upper c \<longleftrightarrow> 65 \<le> c \<and> c \<le> 90"

definition ascii_lower :: "codepoint \<Rightarrow> bool" where
  "ascii_lower c \<longleftrightarrow> 97 \<le> c \<and> c \<le> 122"

definition ascii_alnum :: "codepoint \<Rightarrow> bool" where
  "ascii_alnum c \<longleftrightarrow> ascii_digit c \<or> ascii_upper c \<or> ascii_lower c"

definition ascii_tolower :: "codepoint \<Rightarrow> codepoint" where
  "ascii_tolower c = (if ascii_upper c then c + 32 else c)"

text \<open>
  What the theorems below use of Python's database: on the ASCII range the tests and
  the lower-case mapping are those of ASCII, and a code point with \<open>isdigit\<close> also has
  \<open>isalnum\<close> (\<open>isalnum\<close> is by definition the disjunction of \<open>isalpha\<close>,
  \<open>isdecimal\<close>, \<open>isdigit\<close> and \<open>isnumeric\<close>).
\<close>

definition conforms :: "unicode_db \<Rightarrow> bool" where
  "conforms U \<longleftrightarrow>
     (\<forall>c<128. isalnum U c = ascii_alnum c \<and> isdigit U c = ascii_digit c
              \<and> isdecimal U c = ascii_digit c \<and> tolower_full U c = [ascii_tolower c])
     \<and> (\<forall>c. isdigit U c \<longrightarrow> isalnum U c)"

text \<open>
  An excerpt of the database of CPython 3.11 (Unicode 14.0): the rows of Basic Latin
  (U+0000 to U+007F), of U+0130 LATIN CAPITAL LETTER I WITH DOT ABOVE, whose lower-case
  mapping is the two code points U+0069 U+0307, and of U+0307 COMBINING DOT ABOVE. Every
  other code point carries the default row, so the excerpt is only evaluated on strings
  over the code points listed.
\<close>

definition ucd_excerpt :: unicode_db where
  "ucd_excerpt =
     \<lparr> isalnum = (\<lambda>c. ascii_alnum c \<or> c = 0x130),
       isdigit = ascii_digit,
       isdecimal = ascii_digit,
       tolower_full = (\<lambda>c. if c = 0x130 then [0x69, 0x307] else [ascii_tolower c]),
       cased = (\<lambda>c. ascii_upper c \<or> ascii_lower c \<or> c = 0x130),
       case_ignorable = (\<lambda>c. c \<in> {0x27, 0x2E, 0x3A, 0x5E, 0x60, 0x307}) \<rparr>"


definition ascii_only :: "str \<Rightarrow> bool" where
  "ascii_only s \<longleftrightarrow> (\<forall>c\<in>set s. c < 128)"


section \<open>Sheet Loader\<close>

text \<open>
  A table read by pandas: the column labels and the data rows. \<open>len(df)\<close> is the number
  of rows, \<open>len(df.columns)\<close> the number of columns, and \<open>df.empty\<close> holds when either
  axis has length 0.
\<close>

record 'v dataframe =
  columns :: "str list"
  records :: "'v list list"

definition df_empty :: "'v dataframe \<Rightarrow> bool" where
  "df_empty df \<longleftrightarrow> length (records df) = 0 \<or> length (columns df) = 0"

text \<open>
  The destination database is a map from table names to table contents. The file
  system, pandas and DuckDB are external: a \<open>world\<close> gives the answer of each call the
  source makes, an exception being the message \<open>str(e)\<close> it carries.
  \<^item> \<open>path_exists p\<close>: \<open>Path(p).exists()\<close>;
  \<^item> \<open>mkdir d\<close>: \<open>duckdb_path.parent.mkdir(parents=True, exist_ok=True)\<close>, \<open>Some e\<close> when
    it raises;
  \<^item> \<open>excel_file f\<close>: \<open>pd.ExcelFile(f).sheet_names\<close>, \<open>Inl e\<close> when the workbook cannot
    be opened;
  \<^item> \<open>read_excel f n\<close>: \<open>pd.read_excel(f, sheet_name=n)\<close>;
  \<^item> \<open>connect d\<close>: \<open>duckdb.connect(d)\<close>, \<open>Some e\<close> when it raises;
  \<^item> \<open>execute db t df\<close>: \<open>CREATE OR REPLACE TABLE t AS SELECT * FROM df\<close> on a database
    holding \<open>db\<close>, \<open>Some e\<close> when DuckDB rejects it; a statement that succeeds binds
    \<open>t\<close> to the contents of \<open>df\<close>, one that fails changes nothing;
  \<^item> \<open>glob d p\<close>: the paths that \<open>Path(d).glob(p)\<close> lists.
\<close>

record 'v world =
  unicode :: unicode_db
  path_exists :: "str \<Rightarrow> bool"
  mkdir :: "str \<Rightarrow> str option"
  excel_file :: "str \<Rightarrow> str + str list"
  read_excel :: "str \<Rightarrow> str \<Rightarrow> str + 'v dataframe"
  connect :: "str \<Rightarrow> str option"
  execute :: "(str \<rightharpoonup> 'v dataframe) \<Rightarrow> str \<Rightarrow> 'v dataframe \<Rightarrow> str option"
  glob :: "str \<Rightarrow> str \<Rightarrow> str list"

text \<open>
  The state of one run of \<open>load_xlsx\<close>: the tables of the database and the two lists
  the source appends to. A \<open>loaded_sheets\<close> entry is the tuple
  \<open>(sheet_name, table_name, row_count, col_count)\<close>.
\<close>

record 'v run =
  tables :: "str \<rightharpoonup> 'v dataframe"
  loaded_sheets :: "(str \<times> str \<times> nat \<times> nat) list"
  skipped_sheets :: "str list"

text \<open>
  How a command ends: it returns, it raises \<open>typer.Exit(code)\<close>, or another exception
  leaves it. \<open>typer.Exit\<close> is click's \<open>Exit\<close>, a subclass of \<open>RuntimeError\<close>, so an
  \<open>except Exception\<close> clause catches it. The process exit code of a command that
  returns is 0; an exception other than \<open>Exit\<close> ends the process with code 1.
\<close>

datatype ending = Returned | Exit nat | Raised str

fun exit_code :: "ending \<Rightarrow> nat" where
  "exit_code Returned = 0"
| "exit_code (Exit n) = n"
| "exit_code (Raised e) = 1"

datatype connection = Unopened | Opened | Closed

record 'v result = "'v run" +
  ending :: ending
  conn :: connection

definition finish :: "'v run \<Rightarrow> ending \<Rightarrow> connection \<Rightarrow> 'v result" where
  "finish st e c =
     \<lparr> tables = tables st, loaded_sheets = loaded_sheets st,
       skipped_sheets = skipped_sheets st, ending = e, conn = c \<rparr>"

text \<open>
  The body of the inner \<open>try\<close> for one sheet (lines 67 to 93 of cli.py): \<open>Inl e\<close> when
  \<open>pd.read_excel\<close> or \<open>conn.execute\<close> raises an exception with message \<open>e\<close>. The
  \<open>typer.echo\<close> calls under \<open>verbose\<close> only print and are left out.
\<close>

definition load_sheet ::
  "'v world \<Rightarrow> str \<Rightarrow> str \<Rightarrow> str \<Rightarrow> 'v run \<Rightarrow> str + 'v run" where
  "load_sheet W xlsx_file table_prefix sheet_name st =
     (case read_excel W xlsx_file sheet_name of
        Inl e \<Rightarrow> Inl e
      | Inr df \<Rightarrow>
          if df_empty df
          then Inr (st\<lparr>skipped_sheets := skipped_sheets st @ [sheet_name @ lit '' (empty)'']\<rparr>)
          else
            let table_name = sanitize_table_name (unicode W) sheet_name;
                table_name = (if table_prefix \<noteq> [] then table_prefix @ lit ''_'' @ table_name
                              else table_name)
            in case execute W (tables st) table_name df of
                 Some e \<Rightarrow> Inl e
               | None \<Rightarrow>
                   Inr (st\<lparr>tables := (tables st)(table_name \<mapsto> df),
                           loaded_sheets := loaded_sheets st @
                             [(sheet_name, table_name, length (records df), length (columns df))]\<rparr>))"

text \<open>
  The loop over the sheet names with its \<open>except Exception\<close> clause (lines 65 to 103):
  \<open>Inr st\<close> when the loop runs to its end, \<open>Inl st\<close> when line 103 raises
  \<open>typer.Exit(1)\<close>, \<open>st\<close> being the state at that moment.
\<close>

fun load_sheets ::
  "'v world \<Rightarrow> str \<Rightarrow> str \<Rightarrow> bool \<Rightarrow> str list \<Rightarrow> 'v run \<Rightarrow> 'v run + 'v run" where
  "load_sheets W xlsx_file table_prefix skip_errors [] st = Inr st"
| "load_sheets W xlsx_file table_prefix skip_errors (sheet_name # rest) st =
     (case load_sheet W xlsx_file table_prefix sheet_name st of
        Inr st' \<Rightarrow> load_sheets W xlsx_file table_prefix skip_errors rest st'
      | Inl e \<Rightarrow>
          if skip_errors
          then load_sheets W xlsx_file table_prefix skip_errors rest
                 (st\<lparr>skipped_sheets := skipped_sheets st @
                        [sheet_name @ lit '' (error: '' @ e @ lit '')'']\<rparr>)
          else Inl st)"

text \<open>
  \<open>load_xlsx\<close> on a database holding \<open>db\<close>. The \<open>mkdir\<close> call stands outside the outer
  \<open>try\<close>, so its exception leaves the command as it is. An exception of
  \<open>pd.ExcelFile\<close> or \<open>duckdb.connect\<close> reaches the outer \<open>except Exception\<close> clause
  (line 121), which raises \<open>typer.Exit(1)\<close>. So does the \<open>typer.Exit(1)\<close> of line 103:
  the clause catches it and raises \<open>typer.Exit(1)\<close> again, and \<open>conn.close()\<close> of line
  105 is not reached. The summary printed after line 105 is left out.
\<close>

definition load_xlsx ::
  "'v world \<Rightarrow> (str \<rightharpoonup> 'v dataframe) \<Rightarrow> str \<Rightarrow> str \<Rightarrow> str \<Rightarrow> bool \<Rightarrow> 'v result" where
  "load_xlsx W db xlsx_file duckdb_file table_prefix skip_errors =
     (let st0 = \<lparr> tables = db, loaded_sheets = [], skipped_sheets = [] \<rparr>
      in if \<not> path_exists W xlsx_file then finish st0 (Exit 1) Unopened
         else case mkdir W duckdb_file of
                Some e \<Rightarrow> finish st0 (Raised e) Unopened
              | None \<Rightarrow>
                  (case excel_file W xlsx_file of
                     Inl e \<Rightarrow> finish st0 (Exit 1) Unopened
                   | Inr sheet_names \<Rightarrow>
                       (case connect W duckdb_file of
                          Some e \<Rightarrow> finish st0 (Exit 1) Unopened
                        | None \<Rightarrow>
                            (case load_sheets W xlsx_file table_prefix skip_errors sheet_names st0 of
                               Inl st \<Rightarrow> finish st (Exit 1) Opened
                             | Inr st \<Rightarrow> finish st Returned Closed))))"

section \<open>Directory Batcher\<close>

text \<open>\<open>PurePath.name\<close> and \<open>PurePath.stem\<close> of a POSIX path, and \<open>str.rfind\<close>.\<close>

definition path_name :: "str \<Rightarrow> str" where
  "path_name p = rev (takeWhile (\<lambda>c. c \<noteq> cp CHR ''/'') (rev p))"

definition rfind :: "str \<Rightarrow> codepoint \<Rightarrow> int" where
  "rfind s c =
     (if c \<in> set s then int (length s) - 1 - int (length (takeWhile (\<lambda>x. x \<noteq> c) (rev s)))
      else - 1)"

definition stem :: "str \<Rightarrow> str" where
  "stem name =
     (let i = rfind name (cp CHR ''.'')
      in if 0 < i \<and> i < int (length name) - 1 then take (nat i) name else name)"

text \<open>
  The regular expressions that the source needs: a sequence of atoms, each repeated a
  fixed number of times. \<open>re_match\<close> matches at the start of a string and returns what
  follows the match; \<open>re_sub_empty\<close> is \<open>re.sub(pattern, '', string)\<close>, which scans from
  left to right, deletes a match and goes on behind it.
\<close>

datatype atom = Chr codepoint | Digit

type_synonym regex = "(atom \<times> nat) list"

fun atom_matches :: "unicode_db \<Rightarrow> atom \<Rightarrow> codepoint \<Rightarrow> bool" where
  "atom_matches U (Chr a) c \<longleftrightarrow> c = a"
| "atom_matches U Digit c \<longleftrightarrow> isdecimal U c"

fun re_match :: "unicode_db \<Rightarrow> regex \<Rightarrow> str \<Rightarrow> str option" where
  "re_match U [] s = Some s"
| "re_match U ((a, 0) # r) s = re_match U r s"
| "re_match U ((a, Suc n) # r) [] = None"
| "re_match U ((a, Suc n) # r) (c # s) =
     (if atom_matches U a c then re_match U ((a, n) # r) s else None)"

function re_sub_empty :: "unicode_db \<Rightarrow> regex \<Rightarrow> str \<Rightarrow> str" where
  "re_sub_empty U r [] = []"
| "re_sub_empty U r (c # s) =
     (case re_match U r (c # s) of
        None \<Rightarrow> c # re_sub_empty U r s
      | Some rest \<Rightarrow>
          if length rest \<le> length s then re_sub_empty U r rest else c # re_sub_empty U r s)"
  by pat_completeness auto
termination
  by (relation "measure (\<lambda>(U, r, s). length s)") auto

text \<open>The pattern \<open>r'_\d{8}_\d{6}'\<close> of line 153.\<close>

definition timestamp_re :: regex where
  "timestamp_re = [(Chr (cp CHR ''_''), 1), (Digit, 8), (Chr (cp CHR ''_''), 1), (Digit, 6)]"

text \<open>The table prefix that lines 150 to 154 derive from the name of a file.\<close>

definition derived_table_prefix :: "unicode_db \<Rightarrow> str \<Rightarrow> str" where
  "derived_table_prefix U name =
     (let filename = stem name;
          filename = re_sub_empty U timestamp_re filename
      in replace_char (cp CHR ''-'') (cp CHR ''_'')
           (replace_char (cp CHR '' '') (cp CHR ''_'') filename))"

text \<open>
  The loop over the matched files (lines 148 to 171). The \<open>except Exception\<close> clause
  catches whatever leaves \<open>load_xlsx\<close>, a \<open>typer.Exit\<close> too.
\<close>

fun load_files ::
  "'v world \<Rightarrow> str \<Rightarrow> bool \<Rightarrow> str list \<Rightarrow> (str \<rightharpoonup> 'v dataframe)
   \<Rightarrow> (str \<rightharpoonup> 'v dataframe) \<times> ending" where
  "load_files W duckdb_file skip_errors [] db = (db, Returned)"
| "load_files W duckdb_file skip_errors (xlsx_file # rest) db =
     (let table_prefix = derived_table_prefix (unicode W) (path_name xlsx_file);
          r = load_xlsx W db xlsx_file duckdb_file table_prefix skip_errors
      in if ending r = Returned \<or> skip_errors
         then load_files W duckdb_file skip_errors rest (tables r)
         else (tables r, ending r))"

definition load_all_xlsx ::
  "'v world \<Rightarrow> (str \<rightharpoonup> 'v dataframe) \<Rightarrow> str \<Rightarrow> str \<Rightarrow> str \<Rightarrow> bool
   \<Rightarrow> (str \<rightharpoonup> 'v dataframe) \<times> ending" where
  "load_all_xlsx W db input_dir duckdb_file file_pattern skip_errors =
     (if \<not> path_exists W input_dir then (db, Exit 1)
      else let xlsx_files = glob W input_dir file_pattern
           in if xlsx_files = [] then (db, Returned)
              else load_files W duckdb_file skip_errors xlsx_files db)"

text \<open>
  The derivation of the prefix in the words of the specification. A timestamp is an
  underscore, 8 digits, an underscore and 6 digits; a digit is what \<open>\d\<close> matches.
  \<open>delete_embedded U 0 s\<close> deletes every embedded substring of that form: a code point
  goes when it lies inside one, \<open>k\<close> counting the code points to come that still lie
  inside a timestamp begun earlier.
\<close>

definition is_timestamp :: "unicode_db \<Rightarrow> str \<Rightarrow> bool" where
  "is_timestamp U m \<longleftrightarrow>
     length m = 16 \<and> take 1 m = lit ''_'' \<and> list_all (isdecimal U) (take 8 (drop 1 m))
     \<and> take 1 (drop 9 m) = lit ''_'' \<and> list_all (isdecimal U) (take 6 (drop 10 m))"

definition timestamp_here :: "unicode_db \<Rightarrow> str \<Rightarrow> bool" where
  "timestamp_here U s \<longleftrightarrow> is_timestamp U (take 16 s)"

fun delete_embedded :: "unicode_db \<Rightarrow> nat \<Rightarrow> str \<Rightarrow> str" where
  "delete_embedded U k [] = []"
| "delete_embedded U k (c # s) =
     (let k' = (if timestamp_here U (c # s) then 16 else k)
      in if 0 < k' then delete_embedded U (k' - 1) s else c # delete_embedded U 0 s)"

definition spec_table_prefix :: "unicode_db \<Rightarrow> str \<Rightarrow> str" where
  "spec_table_prefix U name =
     map (\<lambda>c. if c = cp CHR '' '' \<or> c = cp CHR ''-'' then cp CHR ''_'' else c)
       (delete_embedded U 0 (stem name))"

text \<open>No embedded timestamp of \<open>s\<close> begins inside another one.\<close>

fun no_overlap :: "unicode_db \<Rightarrow> str \<Rightarrow> bool" where
  "no_overlap U [] \<longleftrightarrow> True"
| "no_overlap U (c # s) \<longleftrightarrow>
     (timestamp_here U (c # s) \<longrightarrow> \<not> list_ex (\<lambda>j. timestamp_here U (drop j s)) [0..<15])
     \<and> no_overlap U s"

section \<open>Auxiliary definitions and an example workbook\<close>

text \<open>The table name that the specification gives a sheet: \<open>[<prefix>_]<sanitized_sheet_name>\<close>.\<close>

definition spec_table_name :: "unicode_db \<Rightarrow> str \<Rightarrow> str \<Rightarrow> str" where
  "spec_table_name U table_prefix sheet_name =
     (if table_prefix = [] then sanitize_table_name U sheet_name
      else table_prefix @ lit ''_'' @ sanitize_table_name U sheet_name)"

text \<open>
  The invariant of the loop: every entry of \<open>loaded_sheets\<close> carries the table name of
  its sheet, and the database has a table of that name.
\<close>

definition named :: "'v world \<Rightarrow> str \<Rightarrow> 'v run \<Rightarrow> bool" where
  "named W p st \<longleftrightarrow>
     (\<forall>e\<in>set (loaded_sheets st).
        fst (snd e) = spec_table_name (unicode W) p (fst e) \<and> fst (snd e) \<in> dom (tables st))"

text \<open>
  A workbook with the sheets \<open>Data 1\<close> (3 rows, 2 columns), \<open>Empty\<close> (a header and no
  row), \<open>Corrupt\<close> (reading it raises an exception with the message \<open>bad sheet\<close>) and
  \<open>Notes-2024\<close> (5 rows, 4 columns), in a world where everything else succeeds.
\<close>

definition example_data :: "nat dataframe" where
  "example_data = \<lparr> columns = [lit ''a'', lit ''b''], records = [[1, 2], [3, 4], [5, 6]] \<rparr>"

definition example_notes :: "nat dataframe" where
  "example_notes =
     \<lparr> columns = [lit ''w'', lit ''x'', lit ''y'', lit ''z''],
       records = [[1, 1, 1, 1], [2, 2, 2, 2], [3, 3, 3, 3], [4, 4, 4, 4], [5, 5, 5, 5]] \<rparr>"

definition example_world :: "nat world" where
  "example_world =
     \<lparr> unicode = ucd_excerpt,
       path_exists = (\<lambda>p. True),
       mkdir = (\<lambda>d. None),
       excel_file = (\<lambda>f. Inr [lit ''Data 1'', lit ''Empty'', lit ''Corrupt'', lit ''Notes-2024'']),
       read_excel = (\<lambda>f n.
         if n = lit ''Data 1'' then Inr example_data
         else if n = lit ''Empty'' then Inr \<lparr> columns = [lit ''a''], records = [] \<rparr>
         else if n = lit ''Corrupt'' then Inl (lit ''bad sheet'')
         else Inr example_notes),
       connect = (\<lambda>d. None),
       execute = (\<lambda>db t df. None),
       glob = (\<lambda>d p. []) \<rparr>"

text \<open>The same world with a workbook that pandas cannot open.\<close>

definition broken_world :: "nat world" where
  "broken_world = example_world\<lparr>excel_file := (\<lambda>f. Inl (lit ''File is not a zip file''))\<rparr>"

text \<open>
  A directory whose one matching file is \<open>sales_20250919_085132.xlsx\<close>, a workbook with
  the one sheet \<open>Totals\<close> (3 rows, 2 columns).
\<close>

definition sales_world :: "nat world" where
  "sales_world =
     \<lparr> unicode = ucd_excerpt,
       path_exists = (\<lambda>p. True),
       mkdir = (\<lambda>d. None),
       excel_file = (\<lambda>f. Inr [lit ''Totals'']),
       read_excel = (\<lambda>f n. Inr example_data),
       connect = (\<lambda>d. None),
       execute = (\<lambda>db t df. None),
       glob = (\<lambda>d p. [lit ''in/sales_20250919_085132.xlsx'']) \<rparr>"

section \<open>Facts about the string operations\<close>

lemma lit_sheet: "lit ''sheet_'' = [115, 104, 101, 101, 116, 95]"
  by (simp add: lit_def cp_def)

lemma cp_values:
  "cp CHR '' '' = 32" "cp CHR ''-'' = 45" "cp CHR ''.'' = 46" "cp CHR ''_'' = 95"
  by (simp_all add: cp_def)

lemma conforms_excerpt: "conforms ucd_excerpt"
  by (simp add: conforms_def ucd_excerpt_def ascii_alnum_def ascii_digit_def)



lemma lower_from_append_ascii:
  "conforms U \<Longrightarrow> ascii_only a \<Longrightarrow>
   lower_from U before (a @ s) = map ascii_tolower a @ lower_from U (rev a @ before) s"
  by (induction a arbitrary: before) (auto simp: conforms_def ascii_only_def)






lemmas excerpt_eval =
  sanitize_table_name_def replace_char_def cp_values lit_def cp_def ucd_excerpt_def
  ascii_alnum_def ascii_digit_def ascii_upper_def ascii_lower_def ascii_tolower_def
  str_lower_def

lemma sanitize_examples:
  "sanitize_table_name ucd_excerpt (lit ''Data 1'') = lit ''data_1''"
  "sanitize_table_name ucd_excerpt (lit ''Notes-2024'') = lit ''notes_2024''"
  "sanitize_table_name ucd_excerpt (lit ''2024 Q1'') = lit ''sheet_2024_q1''"
  "sanitize_table_name ucd_excerpt (lit ''Totals'') = lit ''totals''"
  "sanitize_table_name ucd_excerpt [] = []"
  by (simp_all add: excerpt_eval)

section \<open>Name Sanitizer: the claims\<close>







text \<open>
  C6: for every input string whose first character is a digit, the output of the Name
  Sanitizer begins with the literal \<open>sheet_\<close>, so its first character is the letter s and
  not a digit.
\<close>

theorem sanitize_digit_prefixed:
  assumes "conforms U" "name \<noteq> []" "isdigit U (hd name)"
  shows "(\<exists>rest. sanitize_table_name U name = lit ''sheet_'' @ rest)
         \<and> hd (sanitize_table_name U name) = cp CHR ''s''
         \<and> \<not> isdigit U (hd (sanitize_table_name U name))"
proof -
  obtain c cs where n: "name = c # cs"
    using assms(2) by (cases name) auto
  have c: "isdigit U c" "isalnum U c"
    using assms n by (auto simp: conforms_def)
  have "c \<noteq> 32 \<and> c \<noteq> 45 \<and> c \<noteq> 46"
    using c(1) assms(1) by (auto simp: conforms_def ascii_digit_def)
  then obtain k where k: "filter (\<lambda>c. isalnum U c \<or> c = cp CHR ''_'')
        (replace_char (cp CHR ''.'') (cp CHR ''_'') (replace_char (cp CHR ''-'') (cp CHR ''_'')
           (replace_char (cp CHR '' '') (cp CHR ''_'') name))) = c # k"
    using c(2) by (simp add: n replace_char_def cp_values)
  have a: "ascii_only [115, 104, 101, 101, 116, 95]"
    by (simp add: ascii_only_def)
  have s: "sanitize_table_name U name
           = lit ''sheet_'' @ lower_from U (rev (lit ''sheet_'')) (c # k)"
    unfolding sanitize_table_name_def Let_def k str_lower_def
    using c(1) lower_from_append_ascii [OF assms(1) a, of "[]" "c # k"]
    by (simp add: lit_sheet ascii_tolower_def ascii_upper_def)
  have "\<exists>rest. sanitize_table_name U name = lit ''sheet_'' @ rest"
    using s by blast
  moreover have "hd (sanitize_table_name U name) = cp CHR ''s''"
    by (simp add: s lit_sheet cp_def)
  moreover have "\<not> isdigit U (hd (sanitize_table_name U name))"
    using assms(1) by (simp add: s lit_sheet conforms_def ascii_digit_def)
  ultimately show ?thesis by blast
qed

theorem sanitize_digit_prefixed_witness:
  "conforms ucd_excerpt \<and> lit ''2024 Q1'' \<noteq> [] \<and> isdigit ucd_excerpt (hd (lit ''2024 Q1''))
   \<and> ((\<exists>rest. sanitize_table_name ucd_excerpt (lit ''2024 Q1'') = lit ''sheet_'' @ rest)
       \<and> hd (sanitize_table_name ucd_excerpt (lit ''2024 Q1'')) = cp CHR ''s''
       \<and> \<not> isdigit ucd_excerpt (hd (sanitize_table_name ucd_excerpt (lit ''2024 Q1''))))"
proof -
  have n: "lit ''2024 Q1'' \<noteq> []"
    by (simp add: lit_def)
  have d: "isdigit ucd_excerpt (hd (lit ''2024 Q1''))"
    by (simp add: lit_def cp_def ucd_excerpt_def ascii_digit_def)
  show ?thesis
    by (intro conjI conforms_excerpt n d sanitize_digit_prefixed [OF conforms_excerpt n d])
qed

section \<open>Facts about the Sheet Loader\<close>

lemma load_sheets_append:
  "load_sheets W f p se (a @ b) st =
     (case load_sheets W f p se a st of
        Inl st' \<Rightarrow> Inl st'
      | Inr st' \<Rightarrow> load_sheets W f p se b st')"
  by (induction a arbitrary: st) (auto split: sum.splits)

lemma load_sheets_skip_total: "\<exists>st'. load_sheets W f p True names st = Inr st'"
  by (induction names arbitrary: st) (auto split: sum.splits)

lemma load_sheet_named:
  "load_sheet W f p n st = Inr st' \<Longrightarrow> named W p st \<Longrightarrow> named W p st'"
  by (fastforce simp: load_sheet_def named_def spec_table_name_def Let_def
      split: sum.splits if_splits option.splits)

lemma load_sheets_named:
  "load_sheets W f p se names st = r \<Longrightarrow> named W p st \<Longrightarrow>
   named W p (case r of Inl st' \<Rightarrow> st' | Inr st' \<Rightarrow> st')"
proof (induction names arbitrary: st)
  case Nil
  then show ?case by auto
next
  case (Cons n names)
  show ?case
  proof (cases "load_sheet W f p n st")
    case (Inl e)
    have "named W p
            (st\<lparr>skipped_sheets := skipped_sheets st @ [n @ lit '' (error: '' @ e @ lit '')'']\<rparr>)"
      using Cons.prems(2) unfolding named_def by fastforce
    then show ?thesis
      using Cons Inl by (auto split: if_splits)
  next
    case (Inr st')
    then show ?thesis
      using Cons load_sheet_named [OF Inr] by auto
  qed
qed

lemma named_start: "named W p \<lparr> tables = db, loaded_sheets = [], skipped_sheets = [] \<rparr>"
  by (simp add: named_def)

lemma load_sheet_skipped:
  "load_sheet W f p n st = Inr st' \<Longrightarrow> set (skipped_sheets st) \<subseteq> set (skipped_sheets st')"
  by (auto simp: load_sheet_def Let_def split: sum.splits if_splits option.splits)

lemma load_sheets_skipped:
  "load_sheets W f p True names st = Inr st' \<Longrightarrow>
   set (skipped_sheets st) \<subseteq> set (skipped_sheets st')"
proof (induction names arbitrary: st)
  case Nil
  then show ?case by auto
next
  case (Cons n names)
  show ?case
  proof (cases "load_sheet W f p n st")
    case (Inl e)
    then show ?thesis
      using Cons.prems Cons.IH by fastforce
  next
    case (Inr st1)
    then show ?thesis
      using Cons.prems Cons.IH [of st1] load_sheet_skipped [OF Inr] by auto
  qed
qed

lemmas world_eval =
  example_world_def broken_world_def load_xlsx_def load_sheet_def finish_def df_empty_def
  excerpt_eval Let_def

lemma example_abort:
  "load_xlsx example_world Map.empty (lit ''book.xlsx'') (lit ''out.duckdb'') [] False
   = \<lparr> tables = [lit ''data_1'' \<mapsto> example_data],
       loaded_sheets = [(lit ''Data 1'', lit ''data_1'', 3, 2)],
       skipped_sheets = [lit ''Empty (empty)''],
       ending = Exit 1, conn = Opened \<rparr>"
  by (simp add: world_eval example_data_def)


lemma example_earlier:
  "load_sheets example_world (lit ''book.xlsx'') [] se [lit ''Data 1'', lit ''Empty'']
     \<lparr> tables = Map.empty, loaded_sheets = [], skipped_sheets = [] \<rparr>
   = Inr \<lparr> tables = [lit ''data_1'' \<mapsto> example_data],
           loaded_sheets = [(lit ''Data 1'', lit ''data_1'', 3, 2)],
           skipped_sheets = [lit ''Empty (empty)''] \<rparr>"
  by (simp add: world_eval example_data_def)

lemma example_corrupt:
  "load_sheet example_world (lit ''book.xlsx'') [] (lit ''Corrupt'') st = Inl (lit ''bad sheet'')"
  by (simp add: world_eval)

lemma example_names:
  "excel_file example_world (lit ''book.xlsx'')
   = Inr ([lit ''Data 1'', lit ''Empty''] @ lit ''Corrupt'' # [lit ''Notes-2024''])"
  by (simp add: example_world_def)

section \<open>Sheet Loader: the claims\<close>

text \<open>
  C1: with the skip-errors flag disabled, when the sheets \<open>earlier\<close> are processed
  without an error and reading or writing the next sheet raises, the run ends at once
  with \<open>typer.Exit(1)\<close>, a non-zero exit code. The database, the loaded entries and the
  skipped entries are those reached after \<open>earlier\<close>, whatever sheets come \<open>later\<close>: none
  of them is processed, and every table created for an earlier sheet is still in the
  database.
\<close>

theorem no_skip_errors_aborts:
  assumes "path_exists W f" "mkdir W d = None"
    and "excel_file W f = Inr (earlier @ failing # later)" "connect W d = None"
    and "load_sheets W f p False earlier
           \<lparr> tables = db, loaded_sheets = [], skipped_sheets = [] \<rparr> = Inr st"
    and "load_sheet W f p failing st = Inl e"
  shows "ending (load_xlsx W db f d p False) = Exit 1
    \<and> exit_code (ending (load_xlsx W db f d p False)) \<noteq> 0
    \<and> tables (load_xlsx W db f d p False) = tables st
    \<and> loaded_sheets (load_xlsx W db f d p False) = loaded_sheets st
    \<and> skipped_sheets (load_xlsx W db f d p False) = skipped_sheets st
    \<and> (\<forall>n t r c. (n, t, r, c) \<in> set (loaded_sheets st) \<longrightarrow>
          t \<in> dom (tables (load_xlsx W db f d p False)))"
proof -
  have l: "load_sheets W f p False (earlier @ failing # later)
             \<lparr> tables = db, loaded_sheets = [], skipped_sheets = [] \<rparr> = Inl st"
    using assms(5,6) by (simp add: load_sheets_append)
  have r: "load_xlsx W db f d p False = finish st (Exit 1) Opened"
    using assms(1-4) l by (simp add: load_xlsx_def)
  from load_sheets_named [OF assms(5) named_start] have "named W p st"
    by simp
  then show ?thesis
    by (fastforce simp: r finish_def named_def)
qed

theorem no_skip_errors_aborts_witness:
  "path_exists example_world (lit ''book.xlsx'')
   \<and> mkdir example_world (lit ''out.duckdb'') = None
   \<and> excel_file example_world (lit ''book.xlsx'')
       = Inr ([lit ''Data 1'', lit ''Empty''] @ lit ''Corrupt'' # [lit ''Notes-2024''])
   \<and> connect example_world (lit ''out.duckdb'') = None
   \<and> load_sheets example_world (lit ''book.xlsx'') [] False [lit ''Data 1'', lit ''Empty'']
        \<lparr> tables = Map.empty, loaded_sheets = [], skipped_sheets = [] \<rparr>
       = Inr \<lparr> tables = [lit ''data_1'' \<mapsto> example_data],
               loaded_sheets = [(lit ''Data 1'', lit ''data_1'', 3, 2)],
               skipped_sheets = [lit ''Empty (empty)''] \<rparr>
   \<and> load_sheet example_world (lit ''book.xlsx'') [] (lit ''Corrupt'')
        \<lparr> tables = [lit ''data_1'' \<mapsto> example_data],
          loaded_sheets = [(lit ''Data 1'', lit ''data_1'', 3, 2)],
          skipped_sheets = [lit ''Empty (empty)''] \<rparr> = Inl (lit ''bad sheet'')
   \<and> ending (load_xlsx example_world Map.empty (lit ''book.xlsx'') (lit ''out.duckdb'') [] False)
       = Exit 1
   \<and> tables (load_xlsx example_world Map.empty (lit ''book.xlsx'') (lit ''out.duckdb'') [] False)
       = [lit ''data_1'' \<mapsto> example_data]
   \<and> lit ''data_1''
       \<in> dom (tables
            (load_xlsx example_world Map.empty (lit ''book.xlsx'') (lit ''out.duckdb'') [] False))"
proof -
  have h1: "path_exists example_world (lit ''book.xlsx'')"
    and h2: "mkdir example_world (lit ''out.duckdb'') = None"
    and h4: "connect example_world (lit ''out.duckdb'') = None"
    by (simp_all add: example_world_def)
  note t = no_skip_errors_aborts [OF h1 h2 example_names h4 example_earlier example_corrupt]
  have m: "(lit ''Data 1'', lit ''data_1'', 3, 2)
           \<in> set (loaded_sheets \<lparr> tables = [lit ''data_1'' \<mapsto> example_data],
                  loaded_sheets = [(lit ''Data 1'', lit ''data_1'', 3::nat, 2::nat)],
                  skipped_sheets = [lit ''Empty (empty)''] \<rparr>)"
    by simp
  have "lit ''data_1''
        \<in> dom (tables
             (load_xlsx example_world Map.empty (lit ''book.xlsx'') (lit ''out.duckdb'') [] False))"
    using t m by blast
  then show ?thesis
    using h1 h2 h4 example_names example_earlier example_corrupt t by simp
qed

text \<open>
  C2: with the skip-errors flag enabled, when reading or writing a sheet raises an
  exception with message \<open>e\<close>, the loop appends the entry \<open><sheet> (error: <e>)\<close> to the
  skipped sheets and goes on with the next sheet; the run returns, the exit code is 0,
  and the entry is among the skipped sheets of the run.
\<close>

theorem skip_errors_continues:
  assumes "path_exists W f" "mkdir W d = None"
    and "excel_file W f = Inr (earlier @ failing # later)" "connect W d = None"
    and "load_sheets W f p True earlier
           \<lparr> tables = db, loaded_sheets = [], skipped_sheets = [] \<rparr> = Inr st"
    and "load_sheet W f p failing st = Inl e"
  shows "load_sheets W f p True (failing # later) st
           = load_sheets W f p True later
               (st\<lparr>skipped_sheets :=
                     skipped_sheets st @ [failing @ lit '' (error: '' @ e @ lit '')'']\<rparr>)
    \<and> ending (load_xlsx W db f d p True) = Returned
    \<and> exit_code (ending (load_xlsx W db f d p True)) = 0
    \<and> failing @ lit '' (error: '' @ e @ lit '')''
        \<in> set (skipped_sheets (load_xlsx W db f d p True))"
proof -
  let ?st = "st\<lparr>skipped_sheets :=
                  skipped_sheets st @ [failing @ lit '' (error: '' @ e @ lit '')'']\<rparr>"
  have s: "load_sheets W f p True (failing # later) st = load_sheets W f p True later ?st"
    using assms(6) by simp
  obtain st' where st': "load_sheets W f p True later ?st = Inr st'"
    using load_sheets_skip_total by blast
  have l: "load_sheets W f p True (earlier @ failing # later)
             \<lparr> tables = db, loaded_sheets = [], skipped_sheets = [] \<rparr> = Inr st'"
    using assms(5) s st' by (simp add: load_sheets_append)
  have r: "load_xlsx W db f d p True = finish st' Returned Closed"
    using assms(1-4) l by (simp add: load_xlsx_def)
  have "failing @ lit '' (error: '' @ e @ lit '')'' \<in> set (skipped_sheets st')"
    using load_sheets_skipped [OF st'] by auto
  then show ?thesis
    using s by (simp add: r finish_def)
qed

theorem skip_errors_continues_witness:
  "path_exists example_world (lit ''book.xlsx'')
   \<and> mkdir example_world (lit ''out.duckdb'') = None
   \<and> excel_file example_world (lit ''book.xlsx'')
       = Inr ([lit ''Data 1'', lit ''Empty''] @ lit ''Corrupt'' # [lit ''Notes-2024''])
   \<and> connect example_world (lit ''out.duckdb'') = None
   \<and> load_sheets example_world (lit ''book.xlsx'') [] True [lit ''Data 1'', lit ''Empty'']
        \<lparr> tables = Map.empty, loaded_sheets = [], skipped_sheets = [] \<rparr>
       = Inr \<lparr> tables = [lit ''data_1'' \<mapsto> example_data],
               loaded_sheets = [(lit ''Data 1'', lit ''data_1'', 3, 2)],
               skipped_sheets = [lit ''Empty (empty)''] \<rparr>
   \<and> load_sheet example_world (lit ''book.xlsx'') [] (lit ''Corrupt'')
        \<lparr> tables = [lit ''data_1'' \<mapsto> example_data],
          loaded_sheets = [(lit ''Data 1'', lit ''data_1'', 3, 2)],
          skipped_sheets = [lit ''Empty (empty)''] \<rparr> = Inl (lit ''bad sheet'')
   \<and> ending (load_xlsx example_world Map.empty (lit ''book.xlsx'') (lit ''out.duckdb'') [] True)
       = Returned
   \<and> exit_code
        (ending (load_xlsx example_world Map.empty (lit ''book.xlsx'') (lit ''out.duckdb'') [] True))
       = 0
   \<and> lit ''Corrupt'' @ lit '' (error: '' @ lit ''bad sheet'' @ lit '')''
       \<in> set (skipped_sheets
            (load_xlsx example_world Map.empty (lit ''book.xlsx'') (lit ''out.duckdb'') [] True))"
proof -
  have h1: "path_exists example_world (lit ''book.xlsx'')"
    and h2: "mkdir example_world (lit ''out.duckdb'') = None"
    and h4: "connect example_world (lit ''out.duckdb'') = None"
    by (simp_all add: example_world_def)
  note t = skip_errors_continues [OF h1 h2 example_names h4 example_earlier example_corrupt]
  show ?thesis
    using h1 h2 h4 example_names example_earlier example_corrupt t by simp
qed

text \<open>
  C3 fails on the code: with the skip-errors flag disabled, the run over the example
  workbook opens the connection, fails on the sheet \<open>Corrupt\<close> and ends with
  \<open>typer.Exit(1)\<close> while the connection is still open. \<open>conn.close()\<close> stands after the
  loop only, with no \<open>finally\<close> clause and no context manager.
\<close>

theorem abort_leaves_connection_open:
  "conn (load_xlsx example_world Map.empty (lit ''book.xlsx'') (lit ''out.duckdb'') [] False)
     = Opened
   \<and> ending (load_xlsx example_world Map.empty (lit ''book.xlsx'') (lit ''out.duckdb'') [] False)
     = Exit 1"
  by (simp add: example_abort)



text \<open>
  C9: when reading a sheet yields a table with zero rows, the sheet is recorded as
  \<open><sheet> (empty)\<close> among the skipped sheets, nothing else of the state changes, the
  tables of the database least of all, and the loop goes on with the next sheet.
\<close>

theorem empty_sheet_skipped:
  assumes "read_excel W f n = Inr df" "length (records df) = 0"
  shows "load_sheet W f p n st
           = Inr (st\<lparr>skipped_sheets := skipped_sheets st @ [n @ lit '' (empty)'']\<rparr>)
    \<and> tables (st\<lparr>skipped_sheets := skipped_sheets st @ [n @ lit '' (empty)'']\<rparr>) = tables st
    \<and> loaded_sheets (st\<lparr>skipped_sheets := skipped_sheets st @ [n @ lit '' (empty)'']\<rparr>)
        = loaded_sheets st
    \<and> load_sheets W f p se (n # rest) st
        = load_sheets W f p se rest
            (st\<lparr>skipped_sheets := skipped_sheets st @ [n @ lit '' (empty)'']\<rparr>)"
  using assms by (simp add: load_sheet_def df_empty_def)

theorem empty_sheet_skipped_witness:
  "read_excel example_world (lit ''book.xlsx'') (lit ''Empty'')
     = Inr \<lparr> columns = [lit ''a''], records = [] \<rparr>
   \<and> length (records \<lparr> columns = [lit ''a''], records = ([] :: nat list list) \<rparr>) = 0
   \<and> load_sheet example_world (lit ''book.xlsx'') [] (lit ''Empty'')
        \<lparr> tables = [lit ''data_1'' \<mapsto> example_data],
          loaded_sheets = [(lit ''Data 1'', lit ''data_1'', 3, 2)], skipped_sheets = [] \<rparr>
       = Inr \<lparr> tables = [lit ''data_1'' \<mapsto> example_data],
               loaded_sheets = [(lit ''Data 1'', lit ''data_1'', 3, 2)],
               skipped_sheets = [lit ''Empty'' @ lit '' (empty)''] \<rparr>"
proof -
  have r: "read_excel example_world (lit ''book.xlsx'') (lit ''Empty'')
             = Inr \<lparr> columns = [lit ''a''], records = [] \<rparr>"
    by (simp add: example_world_def lit_def cp_def)
  have z: "length (records \<lparr> columns = [lit ''a''], records = ([] :: nat list list) \<rparr>) = 0"
    by simp
  show ?thesis
    using r z empty_sheet_skipped [OF r z, of "[]"
        "\<lparr> tables = [lit ''data_1'' \<mapsto> example_data],
           loaded_sheets = [(lit ''Data 1'', lit ''data_1'', 3, 2)], skipped_sheets = [] \<rparr>"]
    by simp
qed

text \<open>
  C10: a failure before the loop, of \<open>pd.ExcelFile\<close> when it enumerates the sheets or of
  \<open>duckdb.connect\<close>, ends a single-file run with \<open>typer.Exit(1)\<close>, exit code 1, whatever
  the skip-errors flag says: nothing is loaded, nothing is recorded as skipped and the
  database is as it was.
\<close>

theorem failure_before_loop_is_fatal:
  assumes "path_exists W f" "mkdir W d = None"
    and "(\<exists>e. excel_file W f = Inl e) \<or> (\<exists>e. connect W d = Some e)"
  shows "ending (load_xlsx W db f d p skip_errors) = Exit 1
    \<and> exit_code (ending (load_xlsx W db f d p skip_errors)) = 1
    \<and> tables (load_xlsx W db f d p skip_errors) = db
    \<and> loaded_sheets (load_xlsx W db f d p skip_errors) = []
    \<and> skipped_sheets (load_xlsx W db f d p skip_errors) = []"
  using assms
  by (auto simp: load_xlsx_def finish_def Let_def split: sum.splits option.splits)

theorem failure_before_loop_is_fatal_witness:
  "path_exists broken_world (lit ''book.xlsx'')
   \<and> mkdir broken_world (lit ''out.duckdb'') = None
   \<and> excel_file broken_world (lit ''book.xlsx'') = Inl (lit ''File is not a zip file'')
   \<and> ending (load_xlsx broken_world Map.empty (lit ''book.xlsx'') (lit ''out.duckdb'') [] True)
       = Exit 1
   \<and> exit_code
        (ending (load_xlsx broken_world Map.empty (lit ''book.xlsx'') (lit ''out.duckdb'') [] True))
       = 1"
proof -
  have h1: "path_exists broken_world (lit ''book.xlsx'')"
    and h2: "mkdir broken_world (lit ''out.duckdb'') = None"
    and h3: "excel_file broken_world (lit ''book.xlsx'') = Inl (lit ''File is not a zip file'')"
    by (simp_all add: broken_world_def example_world_def)
  from h3 have h3': "(\<exists>e. excel_file broken_world (lit ''book.xlsx'') = Inl e)
      \<or> (\<exists>e. connect broken_world (lit ''out.duckdb'') = Some e)"
    by blast
  show ?thesis
    using h1 h2 h3 failure_before_loop_is_fatal [OF h1 h2 h3', of Map.empty "[]" True]
    by simp
qed

section \<open>Facts about the Directory Batcher\<close>

declare re_sub_empty.simps [simp del]

lemma re_match_rep:
  "re_match U ((a, n) # r) s =
     (if n \<le> length s \<and> list_all (atom_matches U a) (take n s) then re_match U r (drop n s)
      else None)"
proof (induction n arbitrary: s)
  case 0
  then show ?case by simp
next
  case (Suc n)
  then show ?case by (cases s) auto
qed

lemma take1: "take (Suc 0) s = [x] \<longleftrightarrow> s \<noteq> [] \<and> hd s = x"
  by (cases s) auto

lemma all1: "Suc 0 \<le> length s \<and> list_all P (take (Suc 0) s) \<longleftrightarrow> s \<noteq> [] \<and> P (hd s)"
  by (cases s) auto

lemma atom_matches_fun:
  "atom_matches U Digit = isdecimal U" "atom_matches U (Chr a) = (\<lambda>c. c = a)"
  by (rule ext, simp)+

lemma timestamp_here_iff:
  "timestamp_here U s \<longleftrightarrow>
     16 \<le> length s \<and> (s \<noteq> [] \<and> hd s = 95) \<and> list_all (isdecimal U) (take 8 (drop 1 s))
     \<and> (drop 9 s \<noteq> [] \<and> hd (drop 9 s) = 95) \<and> list_all (isdecimal U) (take 6 (drop 10 s))"
proof -
  have l: "length (take 16 s) = 16 \<longleftrightarrow> 16 \<le> length s"
    by auto
  have t1: "take 1 (take 16 s) = take (Suc 0) s"
    by (simp add: take_take)
  have t2: "take 8 (drop 1 (take 16 s)) = take 8 (drop 1 s)"
    by (simp add: drop_take take_take)
  have t3: "take 1 (drop 9 (take 16 s)) = take (Suc 0) (drop 9 s)"
    by (simp add: drop_take take_take)
  have t4: "take 6 (drop 10 (take 16 s)) = take 6 (drop 10 s)"
    by (simp add: drop_take take_take)
  have u: "lit ''_'' = [95]"
    by (simp add: lit_def cp_def)
  show ?thesis
    unfolding timestamp_here_def is_timestamp_def l t1 t2 t3 t4 u take1 by (rule refl)
qed

lemma re_match_timestamp:
  "re_match U timestamp_re s = (if timestamp_here U s then Some (drop 16 s) else None)"
proof -
  have c: "cp CHR ''_'' = 95"
    by (simp add: cp_def)
  have d: "drop 8 (drop (Suc 0) s) = drop 9 s" "drop (Suc 0) (drop 9 s) = drop 10 s"
    "drop 6 (drop 10 s) = drop 16 s"
    by simp_all
  have "re_match U timestamp_re s =
    (if s \<noteq> [] \<and> hd s = 95
     then if 8 \<le> length (drop (Suc 0) s) \<and> list_all (isdecimal U) (take 8 (drop (Suc 0) s))
       then if drop 9 s \<noteq> [] \<and> hd (drop 9 s) = 95
         then if 6 \<le> length (drop 10 s) \<and> list_all (isdecimal U) (take 6 (drop 10 s))
           then Some (drop 16 s) else None
         else None
       else None
     else None)"
    unfolding timestamp_re_def re_match_rep atom_matches_fun c One_nat_def all1 d re_match.simps
    by (rule refl)
  also have "\<dots> = (if timestamp_here U s then Some (drop 16 s) else None)"
    unfolding timestamp_here_iff by (cases "16 \<le> length s") auto
  finally show ?thesis .
qed

lemma re_sub_timestamp:
  "re_sub_empty U timestamp_re (c # s) =
     (if timestamp_here U (c # s) then re_sub_empty U timestamp_re (drop 15 s)
      else c # re_sub_empty U timestamp_re s)"
  by (simp add: re_sub_empty.simps re_match_timestamp)

lemma re_sub_nil: "re_sub_empty U r [] = []"
  by (simp add: re_sub_empty.simps)

lemma delete_embedded_skip:
  "\<forall>j<k. \<not> timestamp_here U (drop j t) \<Longrightarrow> delete_embedded U k t = delete_embedded U 0 (drop k t)"
proof (induction t arbitrary: k)
  case Nil
  then show ?case by simp
next
  case (Cons c t)
  show ?case
  proof (cases k)
    case 0
    then show ?thesis by simp
  next
    case (Suc k')
    have h: "\<not> timestamp_here U (c # t)" using Cons.prems Suc by (metis drop0 zero_less_Suc)
    have "\<forall>j<k'. \<not> timestamp_here U (drop j t)"
      using Cons.prems Suc by (metis Suc_less_eq drop_Suc_Cons)
    from Cons.IH [OF this] show ?thesis using h Suc by simp
  qed
qed

lemma no_overlap_drop: "no_overlap U s \<Longrightarrow> no_overlap U (drop n s)"
proof (induction s arbitrary: n)
  case Nil
  then show ?case by simp
next
  case (Cons c s)
  then show ?case by (cases n) auto
qed

lemma re_sub_delete_embedded:
  "no_overlap U s \<Longrightarrow> re_sub_empty U timestamp_re s = delete_embedded U 0 s"
proof (induction s rule: length_induct)
  case (1 s)
  show ?case
  proof (cases s)
    case Nil
    then show ?thesis by (simp add: re_sub_nil)
  next
    case (Cons c t)
    show ?thesis
    proof (cases "timestamp_here U (c # t)")
      case True
      have "\<forall>j<15. \<not> timestamp_here U (drop j t)"
        using "1.prems" True Cons by (auto simp: list_ex_iff)
      then have d: "delete_embedded U 15 t = delete_embedded U 0 (drop 15 t)"
        by (rule delete_embedded_skip)
      have n: "no_overlap U (drop 15 t)"
        using "1.prems" Cons no_overlap_drop [of U s 16] by simp
      have "length (drop 15 t) < length s" using Cons by simp
      with "1.IH" n have "re_sub_empty U timestamp_re (drop 15 t) = delete_embedded U 0 (drop 15 t)"
        by blast
      then show ?thesis
        using True d Cons by (simp add: re_sub_timestamp)
    next
      case False
      have "re_sub_empty U timestamp_re t = delete_embedded U 0 t"
        using "1.IH" "1.prems" Cons by simp
      then show ?thesis
        using False Cons by (simp add: re_sub_timestamp)
    qed
  qed
qed

lemma replace_both:
  "replace_char (cp CHR ''-'') (cp CHR ''_'') (replace_char (cp CHR '' '') (cp CHR ''_'') s)
   = map (\<lambda>c. if c = cp CHR '' '' \<or> c = cp CHR ''-'' then cp CHR ''_'' else c) s"
  by (auto simp: replace_char_def cp_values)

lemmas batch_eval =
  derived_table_prefix_def stem_def rfind_def re_sub_timestamp re_sub_nil timestamp_here_def
  is_timestamp_def spec_table_prefix_def path_name_def

lemma sales_prefix:
  "derived_table_prefix ucd_excerpt (lit ''sales_20250919_085132.xlsx'') = lit ''sales''"
  by (simp add: batch_eval excerpt_eval)

lemma sales_no_overlap: "no_overlap ucd_excerpt (stem (lit ''sales_20250919_085132.xlsx''))"
  by code_simp

lemma sales_run:
  "load_all_xlsx sales_world Map.empty (lit ''in'') (lit ''out.duckdb'') (lit ''*.xlsx'') True
   = ([lit ''sales_totals'' \<mapsto> example_data], Returned)"
  by (simp add: load_all_xlsx_def sales_world_def batch_eval load_xlsx_def load_sheet_def
      finish_def df_empty_def example_data_def excerpt_eval Let_def)

section \<open>Directory Batcher: the claim\<close>

text \<open>
  C8, as the code has it: for every file in whose stem no two timestamps overlap, the
  derived table prefix is the stem with every embedded timestamp deleted and every
  remaining space and hyphen replaced by an underscore. The file
  \<open>sales_20250919_085132.xlsx\<close> yields the prefix \<open>sales\<close>, and a batch run over a
  directory with that file, whose workbook has the sheet \<open>Totals\<close>, leaves the table
  \<open>sales_totals\<close> in the database.
\<close>

theorem batch_table_prefix:
  assumes "no_overlap U (stem name)"
  shows "derived_table_prefix U name = spec_table_prefix U name
    \<and> derived_table_prefix ucd_excerpt (lit ''sales_20250919_085132.xlsx'') = lit ''sales''
    \<and> load_all_xlsx sales_world Map.empty (lit ''in'') (lit ''out.duckdb'') (lit ''*.xlsx'') True
        = ([lit ''sales_totals'' \<mapsto> example_data], Returned)"
proof -
  have "derived_table_prefix U name = spec_table_prefix U name"
    using assms
    by (simp add: derived_table_prefix_def spec_table_prefix_def replace_both
        re_sub_delete_embedded)
  then show ?thesis
    using sales_prefix sales_run by simp
qed

theorem batch_table_prefix_witness:
  "no_overlap ucd_excerpt (stem (lit ''sales_20250919_085132.xlsx''))
   \<and> spec_table_prefix ucd_excerpt (lit ''sales_20250919_085132.xlsx'') = lit ''sales''"
proof -
  have "derived_table_prefix ucd_excerpt (lit ''sales_20250919_085132.xlsx'')
        = spec_table_prefix ucd_excerpt (lit ''sales_20250919_085132.xlsx'')"
    using batch_table_prefix [OF sales_no_overlap] by (rule conjunct1)
  then have "spec_table_prefix ucd_excerpt (lit ''sales_20250919_085132.xlsx'') = lit ''sales''"
    using sales_prefix by simp
  then show ?thesis
    using sales_no_overlap by (rule conjI [rotated])
qed

text \<open>
  C8 as stated fails when two timestamps overlap. The stem
  \<open>report_20250919_20250920_085132\<close> embeds \<open>_20250919_202509\<close> at offset 6 and
  \<open>_20250920_085132\<close> at offset 15. Deleting every embedded timestamp leaves \<open>report\<close>;
  \<open>re.sub\<close> deletes the first match only and goes on behind it, so the code derives the
  prefix \<open>report20_085132\<close>.
\<close>

theorem overlapping_timestamps:
  "stem (lit ''report_20250919_20250920_085132.xlsx'') = lit ''report_20250919_20250920_085132''
   \<and> is_timestamp ucd_excerpt (take 16 (drop 6 (lit ''report_20250919_20250920_085132'')))
   \<and> take 16 (drop 15 (lit ''report_20250919_20250920_085132'')) = lit ''_20250920_085132''
   \<and> is_timestamp ucd_excerpt (lit ''_20250920_085132'')
   \<and> derived_table_prefix ucd_excerpt (lit ''report_20250919_20250920_085132.xlsx'')
       = lit ''report20_085132''
   \<and> spec_table_prefix ucd_excerpt (lit ''report_20250919_20250920_085132.xlsx'')
       = lit ''report''"
  by (simp add: batch_eval excerpt_eval)

end
